theory Spec2Isabelle
  imports Main "HOL-Library.Sublist" "HOL-Library.AList"
begin

section \<open>Python values, errors and containers\<close>

text \<open>
  The chain of \<^verbatim>\<open>chains/conversational_retrieval_over_code.py\<close> works on Python
  strings, lists and dictionaries. Strings are \<^typ>\<open>string\<close>, the UTF-8 bytes of
  the Python text; every marker the code searches for or removes is ASCII, so a search
  finds in the bytes what it finds in the text. A dictionary is an association list
  with distinct keys in insertion order, read with \<^const>\<open>map_of\<close> and written with
  \<^const>\<open>AList.update\<close> (which replaces in place or appends, as a Python
  \<^verbatim>\<open>dict\<close> does). Every exception is a value of \<open>py_error\<close>;
  \<open>UpstreamFailure\<close> stands for whatever a collaborator raises.
\<close>

datatype py_error =
    KeyError string
  | IndexError
  | TypeError string
  | ValueError string
  | UpstreamFailure string

record document =
  page_content :: string
  metadata :: "(string \<times> string) list"

datatype chat_turn = TurnPair string string | TurnMessage string string

datatype pyval =
    PyNone
  | PyBool bool
  | PyStr string
  | PyTurns "chat_turn list"
  | PyDocs "document list"

type_synonym pydict = "(string \<times> pyval) list"

definition dict_getitem :: "pydict \<Rightarrow> string \<Rightarrow> py_error + pyval" where
  "dict_getitem d k = (case map_of d k of None \<Rightarrow> Inl (KeyError k) | Some v \<Rightarrow> Inr v)"

text \<open>\<^verbatim>\<open>xs[i]\<close>: a negative index counts from the end, out of range raises.\<close>

definition list_getitem :: "'a list \<Rightarrow> int \<Rightarrow> py_error + 'a" where
  "list_getitem xs i =
     (if 0 \<le> i \<and> i < int (length xs) then Inr (xs ! nat i)
      else if i < 0 \<and> - int (length xs) \<le> i then Inr (xs ! nat (int (length xs) + i))
      else Inl IndexError)"

text \<open>\<^verbatim>\<open>xs[:k]\<close>: never raises; a negative bound counts from the end.\<close>

definition slice_to :: "'a list \<Rightarrow> int \<Rightarrow> 'a list" where
  "slice_to xs k = (if k < 0 then take (nat (int (length xs) + k)) xs else take (nat k) xs)"

text \<open>
  \<^verbatim>\<open>s.replace(old, new)\<close>: all non-overlapping occurrences, leftmost first; with
  an empty \<open>old\<close> Python puts \<open>new\<close> before every character and at the end.
\<close>

function py_replace :: "string \<Rightarrow> string \<Rightarrow> string \<Rightarrow> string" where
  "py_replace old new s =
     (if old = [] then new @ concat (map (\<lambda>c. c # new) s)
      else if s = [] then []
      else if prefix old s then new @ py_replace old new (drop (length old) s)
      else hd s # py_replace old new (tl s))"
  by pat_completeness auto
termination
  by (relation "measure (\<lambda>(old, new, s). length s)") auto

declare py_replace.simps [simp del]

section \<open>The output parser\<close>

text \<open>
  \<open>py_partition sep s\<close> splits \<open>s\<close> at the first (leftmost) occurrence of \<open>sep\<close>:
  the text before it and the text after it, or \<open>None\<close> when \<open>sep\<close> does not occur.
\<close>

fun py_partition :: "string \<Rightarrow> string \<Rightarrow> (string \<times> string) option" where
  "py_partition sep [] = (if sep = [] then Some ([], []) else None)"
| "py_partition sep (c # cs) =
     (if prefix sep (c # cs) then Some ([], drop (length sep) (c # cs))
      else map_option (\<lambda>(before, after). (c # before, after)) (py_partition sep cs))"

definition newline :: char where
  "newline = CHR 0x0A"

text \<open>
  The lazy group \<^verbatim>\<open>(.*?)$\<close> at the end of the pattern: without
  \<^verbatim>\<open>re.MULTILINE\<close>, \<^verbatim>\<open>$\<close> matches at the end of the string and also just
  before a newline that is the last character of the string. The lazy group stops at
  the first position where \<^verbatim>\<open>$\<close> matches, so one final newline is left out of it.
\<close>

definition lazy_to_dollar :: "string \<Rightarrow> string" where
  "lazy_to_dollar t = (if t \<noteq> [] \<and> last t = newline then butlast t else t)"

text \<open>
  \<^verbatim>\<open>re.search(r"```python(.*?)```(.*?)$", output, re.DOTALL)\<close>: the match starts at
  the leftmost \<^verbatim>\<open>```python\<close>; with \<^verbatim>\<open>re.DOTALL\<close> the dot matches every
  character, so the lazy group 1 ends at the first \<^verbatim>\<open>```\<close> after the opening
  marker (the rest of the pattern always matches from there), and group 2 is the rest
  as \<^const>\<open>lazy_to_dollar\<close> reads it. If no \<^verbatim>\<open>```\<close> follows the leftmost opening
  marker, none follows a later one either, and the search fails. The result is the
  pair of groups.
\<close>

definition re_search :: "string \<Rightarrow> (string \<times> string) option" where
  "re_search output =
     (case py_partition ''```python'' output of
        None \<Rightarrow> None
      | Some (skipped, rest) \<Rightarrow>
          (case py_partition ''```'' rest of
             None \<Rightarrow> None
           | Some (group1, tail) \<Rightarrow> Some (group1, lazy_to_dollar tail)))"

definition parse_code :: "string \<Rightarrow> string option \<times> string option" where
  "parse_code output =
     (case re_search output of
        None \<Rightarrow> (None, None)
      | Some (group1, group2) \<Rightarrow>
          (if group1 = ''None'' then None else Some group1, Some group2))"

section \<open>The chain and its collaborators\<close>

text \<open>
  The fields of \<^verbatim>\<open>ConversationalRetrievalCodeChain\<close>. The collaborators are
  objects of the langchain library, outside this repository; each call the chain makes
  on them is a field holding the collaborator's response to the arguments the chain
  passes, an exception being \<open>Inl\<close>:
  \<^item> \<open>question_generator_run\<close>, \<open>question_generator_arun\<close>:
    \<^verbatim>\<open>question_generator.run(question=...)\<close> and \<^verbatim>\<open>.arun\<close>;
  \<^item> \<open>get_relevant_documents\<close>, \<open>aget_relevant_documents\<close>: the retriever;
  \<^item> \<open>combine_docs_run\<close>, \<open>combine_docs_arun\<close>:
    \<^verbatim>\<open>combine_docs_chain.run(input_documents=docs, **new_inputs)\<close> and \<^verbatim>\<open>.arun\<close>;
  \<^item> \<open>combine_is_stuff\<close>: \<^verbatim>\<open>isinstance(combine_docs_chain, StuffDocumentsChain)\<close>;
  \<^item> \<open>get_num_tokens\<close>: \<^verbatim>\<open>combine_docs_chain.llm_chain.llm.get_num_tokens\<close>,
    a deterministic count;
  \<^item> \<open>constitutional_run\<close>: \<^verbatim>\<open>constitutional_chain.run(code=...)\<close>.
\<close>

text \<open>
  The optional field \<^verbatim>\<open>get_chat_history\<close> holds a callable object. The chain
  calls it and also tests it for truth (\<^verbatim>\<open>self.get_chat_history or ...\<close>,
  \<^verbatim>\<open>if self.get_chat_history:\<close>). A plain function is true; an object with
  \<^verbatim>\<open>__call__\<close> may define \<^verbatim>\<open>__bool__\<close> or \<^verbatim>\<open>__len__\<close>, and its
  truth test may then answer false or raise. \<open>truth\<close> is the outcome of
  \<^verbatim>\<open>bool(f)\<close>, \<open>invoke\<close> the response to a call.
\<close>

record callable =
  truth :: "py_error + bool"
  invoke :: "pyval \<Rightarrow> py_error + string"


text \<open>
  \<^verbatim>\<open>x or fallback\<close>, as the function to call: \<open>x\<close> when its truth test answers
  true, \<open>fallback\<close> when it answers false, the exception when it raises.
\<close>

definition or_default ::
  "callable option \<Rightarrow> (pyval \<Rightarrow> py_error + string) \<Rightarrow>
   py_error + (pyval \<Rightarrow> py_error + string)" where
  "or_default x fallback =
     (case x of
        None \<Rightarrow> Inr fallback
      | Some f \<Rightarrow>
          (case truth f of
             Inl e \<Rightarrow> Inl e
           | Inr b \<Rightarrow> Inr (if b then invoke f else fallback)))"

record chain =
  question_generator_run :: "pyval \<Rightarrow> py_error + string"
  question_generator_arun :: "pyval \<Rightarrow> py_error + string"
  get_relevant_documents :: "string \<Rightarrow> py_error + document list"
  aget_relevant_documents :: "string \<Rightarrow> py_error + document list"
  combine_docs_run :: "document list \<Rightarrow> pydict \<Rightarrow> py_error + string"
  combine_docs_arun :: "document list \<Rightarrow> pydict \<Rightarrow> py_error + string"
  combine_is_stuff :: bool
  get_num_tokens :: "string \<Rightarrow> int"
  constitutional_run :: "string \<Rightarrow> py_error + string"
  output_key :: "string list"
  return_source_documents :: bool
  return_generated_question :: bool
  return_revision_request :: bool
  get_chat_history :: "callable option"
  max_tokens_limit :: "int option"

section \<open>The context budgeter\<close>

text \<open>
  The \<^verbatim>\<open>while\<close> loop of \<^verbatim>\<open>_reduce_tokens_below_limit\<close>. \<open>num_docs\<close> is a
  Python integer: once it is negative, \<^verbatim>\<open>tokens[num_docs]\<close> counts from the end,
  and below \<open>- len(tokens)\<close> it raises \<^verbatim>\<open>IndexError\<close>.
\<close>

function reduce_loop :: "int list \<Rightarrow> int \<Rightarrow> int \<Rightarrow> int \<Rightarrow> py_error + int" where
  "reduce_loop tokens limit num_docs token_count =
     (if token_count > limit then
        (case list_getitem tokens (num_docs - 1) of
           Inl e \<Rightarrow> Inl e
         | Inr t \<Rightarrow> reduce_loop tokens limit (num_docs - 1) (token_count - t))
      else Inr num_docs)"
  by pat_completeness auto
termination
  by (relation "measure (\<lambda>(tokens, limit, num_docs, token_count).
        nat (num_docs + int (length tokens)))")
     (auto simp: list_getitem_def split: if_splits)

declare reduce_loop.simps [simp del]

text \<open>
  \<^verbatim>\<open>if self.max_tokens_limit and isinstance(...)\<close>: the limit is tested for
  truth, so \<^verbatim>\<open>None\<close> and \<open>0\<close> both skip the trimming.
\<close>

definition reduce_tokens_below_limit :: "chain \<Rightarrow> document list \<Rightarrow> py_error + document list" where
  "reduce_tokens_below_limit self docs =
     (let num_docs = int (length docs) in
      case max_tokens_limit self of
        None \<Rightarrow> Inr (slice_to docs num_docs)
      | Some limit \<Rightarrow>
          if limit \<noteq> 0 \<and> combine_is_stuff self then
            (let tokens = map (\<lambda>doc. get_num_tokens self (page_content doc)) docs;
                 token_count = sum_list (slice_to tokens num_docs)
             in case reduce_loop tokens limit num_docs token_count of
                  Inl e \<Rightarrow> Inl e
                | Inr n \<Rightarrow> Inr (slice_to docs n))
          else Inr (slice_to docs num_docs))"

text \<open>
  The budgeter in the words of the specification: while the total cost exceeds the
  limit, drop the last document.
\<close>

function spec_reduce :: "(document \<Rightarrow> int) \<Rightarrow> int \<Rightarrow> document list \<Rightarrow> document list" where
  "spec_reduce cost limit docs =
     (if docs \<noteq> [] \<and> sum_list (map cost docs) > limit
      then spec_reduce cost limit (butlast docs) else docs)"
  by pat_completeness auto
termination
  by (relation "measure (\<lambda>(cost, limit, docs). length docs)") auto

declare spec_reduce.simps [simp del]

section \<open>The pipeline\<close>

text \<open>
  A step of the chain takes the calls made on the collaborators so far, in order, and
  yields them extended by its own, with either the exception that ends the run or its
  value. Token counting is a pure function of the text and is not recorded.
\<close>

datatype event =
    Condense pyval
  | Retrieve string
  | Synthesize "document list" pydict
  | Critique string

type_synonym 'a run = "event list \<Rightarrow> event list \<times> (py_error + 'a)"

definition ret :: "'a \<Rightarrow> 'a run" where
  "ret x = (\<lambda>trace. (trace, Inr x))"

definition lift :: "py_error + 'a \<Rightarrow> 'a run" where
  "lift r = (\<lambda>trace. (trace, r))"

definition service :: "event \<Rightarrow> py_error + 'a \<Rightarrow> 'a run" where
  "service ev r = (\<lambda>trace. (trace @ [ev], r))"

definition then_do :: "'a run \<Rightarrow> ('a \<Rightarrow> 'b run) \<Rightarrow> 'b run" where
  "then_do m f =
     (\<lambda>trace. case m trace of
        (trace', Inl e) \<Rightarrow> (trace', Inl e)
      | (trace', Inr x) \<Rightarrow> f x trace')"

definition opt_str :: "string option \<Rightarrow> pyval" where
  "opt_str v = (case v of None \<Rightarrow> PyNone | Some s \<Rightarrow> PyStr s)"

text \<open>
  \<^verbatim>\<open>combine_docs_chain.run(input_documents=docs, callbacks=..., **new_inputs)\<close>: a key
  of \<open>new_inputs\<close> that repeats a keyword written in the call is a \<^verbatim>\<open>TypeError\<close>
  raised before the callee runs.
\<close>

definition combine_docs_call ::
  "(document list \<Rightarrow> pydict \<Rightarrow> py_error + string) \<Rightarrow> document list \<Rightarrow> pydict \<Rightarrow> string run" where
  "combine_docs_call run_method docs new_inputs =
     (if map_of new_inputs ''input_documents'' \<noteq> None \<or> map_of new_inputs ''callbacks'' \<noteq> None
      then lift (Inl (TypeError ''got multiple values for keyword argument''))
      else service (Synthesize docs new_inputs) (run_method docs new_inputs))"

text \<open>
  \<^verbatim>\<open>_get_docs\<close> and \<^verbatim>\<open>_aget_docs\<close> of
  \<^verbatim>\<open>ConversationalRetrievalCodeChain\<close>: retrieve, then trim.
\<close>

definition get_docs :: "chain \<Rightarrow> string \<Rightarrow> pydict \<Rightarrow> document list run" where
  "get_docs self question inputs =
     then_do (service (Retrieve question) (get_relevant_documents self question))
       (\<lambda>docs. lift (reduce_tokens_below_limit self docs))"

definition aget_docs :: "chain \<Rightarrow> string \<Rightarrow> pydict \<Rightarrow> document list run" where
  "aget_docs self question inputs =
     then_do (service (Retrieve question) (aget_relevant_documents self question))
       (\<lambda>docs. lift (reduce_tokens_below_limit self docs))"

text \<open>
  \<^verbatim>\<open>_call\<close>, run from the empty trace. The first argument is langchain's
  \<^verbatim>\<open>_get_chat_history\<close>, the formatter used when the chain's own is
  \<^verbatim>\<open>None\<close> or false (\<^verbatim>\<open>self.get_chat_history or _get_chat_history\<close>).
  Callback managers carry nothing the result depends on and are left out; the two
  branches on \<^verbatim>\<open>accepts_run_manager\<close> differ only in passing one, so they are
  the one call of \<open>get_docs\<close> here. \<open>inputs.copy()\<close> is \<open>inputs\<close> itself, values
  being immutable. The dictionary display
  \<^verbatim>\<open>{self.output_key[0]: code, self.output_key[1]: expl}\<close> reads both keys, each
  an \<^verbatim>\<open>IndexError\<close> on a list too short, and stores them in order.
\<close>

definition call ::
  "(pyval \<Rightarrow> py_error + string) \<Rightarrow> chain \<Rightarrow> pydict \<Rightarrow> event list \<times> (py_error + pydict)" where
  "call default_get_chat_history self inputs =
    (then_do (lift (dict_getitem inputs ''question'')) (\<lambda>request.
     then_do (service (Condense request) (question_generator_run self request)) (\<lambda>new_request.
     then_do (get_docs self new_request inputs) (\<lambda>docs.
     let new_inputs = inputs;
         new_request = py_replace ''python'' [] (py_replace ''streamlit'' [] new_request)
     in
     then_do (lift (or_default (get_chat_history self) default_get_chat_history))
       (\<lambda>formatter.
     then_do (lift (dict_getitem inputs ''chat_history'')) (\<lambda>chat_history.
     then_do (lift (formatter chat_history)) (\<lambda>chat_history_str.
     let new_inputs = AList.update ''chat_history'' (PyStr chat_history_str) new_inputs in
     then_do (combine_docs_call (combine_docs_run self) docs new_inputs) (\<lambda>answer.
     case parse_code answer of (code, expl) \<Rightarrow>
     then_do (case code of
                None \<Rightarrow> ret (PyBool True)
              | Some c \<Rightarrow> then_do (service (Critique c) (constitutional_run self c))
                            (\<lambda>verdict. ret (PyStr verdict))) (\<lambda>is_code_not_safe.
     then_do (lift (list_getitem (output_key self) 0)) (\<lambda>key0.
     then_do (lift (list_getitem (output_key self) 1)) (\<lambda>key1.
     let output = AList.update key1 (opt_str expl) (AList.update key0 (opt_str code) []);
         output = (if return_source_documents self
                   then AList.update ''source_documents'' (PyDocs docs) output else output);
         output = (if return_generated_question self
                   then AList.update ''generated_question'' (PyStr new_request) output else output);
         output = (if return_revision_request self
                   then AList.update ''revision_request'' is_code_not_safe output else output)
     in ret output))))))))))) []"

text \<open>
  \<^verbatim>\<open>_acall\<close>: the awaited methods of the condenser, the retriever and the
  synthesizer; the critic is called through its blocking \<^verbatim>\<open>run\<close> here too.
\<close>

definition acall ::
  "(pyval \<Rightarrow> py_error + string) \<Rightarrow> chain \<Rightarrow> pydict \<Rightarrow> event list \<times> (py_error + pydict)" where
  "acall default_get_chat_history self inputs =
    (then_do (lift (dict_getitem inputs ''question'')) (\<lambda>request.
     then_do (service (Condense request) (question_generator_arun self request)) (\<lambda>new_request.
     then_do (aget_docs self new_request inputs) (\<lambda>docs.
     let new_inputs = inputs;
         new_request = py_replace ''python'' [] (py_replace ''streamlit'' [] new_request)
     in
     then_do (lift (or_default (get_chat_history self) default_get_chat_history))
       (\<lambda>formatter.
     then_do (lift (dict_getitem inputs ''chat_history'')) (\<lambda>chat_history.
     then_do (lift (formatter chat_history)) (\<lambda>chat_history_str.
     let new_inputs = AList.update ''chat_history'' (PyStr chat_history_str) new_inputs in
     then_do (combine_docs_call (combine_docs_arun self) docs new_inputs) (\<lambda>answer.
     case parse_code answer of (code, expl) \<Rightarrow>
     then_do (case code of
                None \<Rightarrow> ret (PyBool True)
              | Some c \<Rightarrow> then_do (service (Critique c) (constitutional_run self c))
                            (\<lambda>verdict. ret (PyStr verdict))) (\<lambda>is_code_not_safe.
     then_do (lift (list_getitem (output_key self) 0)) (\<lambda>key0.
     then_do (lift (list_getitem (output_key self) 1)) (\<lambda>key1.
     let output = AList.update key1 (opt_str expl) (AList.update key0 (opt_str code) []);
         output = (if return_source_documents self
                   then AList.update ''source_documents'' (PyDocs docs) output else output);
         output = (if return_generated_question self
                   then AList.update ''generated_question'' (PyStr new_request) output else output);
         output = (if return_revision_request self
                   then AList.update ''revision_request'' is_code_not_safe output else output)
     in ret output))))))))))) []"

section \<open>Saving\<close>



section \<open>A concrete chain\<close>

text \<open>
  Collaborators with fixed answers, for running the definitions: the condenser always
  answers with the same standalone question, the retriever with three documents of
  four characters, the tokenizer counts ten tokens a character, the synthesizer
  answers with the text given here as \<open>answer\<close>, and the critic with \<open>safe\<close>.
\<close>

definition example_doc :: "string \<Rightarrow> document" where
  "example_doc s = \<lparr>page_content = s, metadata = []\<rparr>"

definition example_history :: "pyval \<Rightarrow> py_error + string" where
  "example_history h =
     (case h of
        PyTurns turns \<Rightarrow>
          Inr (concat (map (\<lambda>turn. case turn of
                                TurnPair human ai \<Rightarrow> ''Human: '' @ human @ '' Assistant: '' @ ai
                              | TurnMessage role content \<Rightarrow> role @ '': '' @ content) turns))
      | _ \<Rightarrow> Inl (ValueError ''Unsupported chat history format''))"

definition example_chain :: "string \<Rightarrow> chain" where
  "example_chain answer =
     \<lparr>question_generator_run = (\<lambda>question. Inr ''standalone streamlit question''),
      question_generator_arun = (\<lambda>question. Inr ''standalone streamlit question''),
      get_relevant_documents =
        (\<lambda>query. Inr [example_doc ''aaaa'', example_doc ''bbbb'', example_doc ''cccc'']),
      aget_relevant_documents =
        (\<lambda>query. Inr [example_doc ''aaaa'', example_doc ''bbbb'', example_doc ''cccc'']),
      combine_docs_run = (\<lambda>docs new_inputs. Inr answer),
      combine_docs_arun = (\<lambda>docs new_inputs. Inr answer),
      combine_is_stuff = True,
      get_num_tokens = (\<lambda>text. 10 * int (length text)),
      constitutional_run = (\<lambda>code. Inr ''safe''),
      output_key = [''code'', ''explanation''],
      return_source_documents = True,
      return_generated_question = True,
      return_revision_request = True,
      get_chat_history = None,
      max_tokens_limit = Some 100\<rparr>"



definition example_inputs :: "string \<Rightarrow> pydict" where
  "example_inputs question = [(''question'', PyStr question), (''chat_history'', PyTurns [])]"


section \<open>Properties of the output parser\<close>

lemma py_partition_at_start: "py_partition sep (sep @ rest) = Some ([], rest)"
proof (cases "sep @ rest")
  case Nil
  then show ?thesis by simp
next
  case (Cons c cs)
  have "prefix sep (c # cs)" and "drop (length sep) (c # cs) = rest"
    by (simp_all flip: Cons)
  then show ?thesis by (simp add: Cons)
qed

text \<open>If \<open>sep\<close> opens at no position inside \<open>pre\<close>, the split is at the end of \<open>pre\<close>.\<close>

lemma py_partition_first:
  "\<forall>k<length pre. \<not> prefix sep (drop k (pre @ sep @ rest)) \<Longrightarrow>
   py_partition sep (pre @ sep @ rest) = Some (pre, rest)"
proof (induction pre)
  case Nil
  show ?case by (simp add: py_partition_at_start)
next
  case (Cons c pre)
  from Cons.prems have no0: "\<not> prefix sep ((c # pre) @ sep @ rest)"
    by (metis drop0 length_greater_0_conv list.distinct(1))
  have "\<forall>k<length pre. \<not> prefix sep (drop k (pre @ sep @ rest))"
  proof (intro allI impI)
    fix k assume "k < length pre"
    then have "Suc k < length (c # pre)" by simp
    with Cons.prems have "\<not> prefix sep (drop (Suc k) ((c # pre) @ sep @ rest))" by blast
    then show "\<not> prefix sep (drop k (pre @ sep @ rest))" by simp
  qed
  then have "py_partition sep (pre @ sep @ rest) = Some (pre, rest)" by (rule Cons.IH)
  with no0 show ?case by simp
qed

lemma py_partition_None_iff: "py_partition sep s = None \<longleftrightarrow> \<not> sublist sep s"
  by (induction s) (auto simp: sublist_Cons_right split: if_splits)

lemma py_partition_Some_decomp:
  "py_partition sep s = Some (b, a) \<Longrightarrow> s = b @ sep @ a"
proof (induction s arbitrary: b)
  case Nil
  then show ?case by (auto split: if_splits)
next
  case (Cons c cs)
  show ?case
  proof (cases "prefix sep (c # cs)")
    case True
    with Cons.prems have "b = []" "a = drop (length sep) (c # cs)" by auto
    with True show ?thesis by (metis append_Nil append_eq_conv_conj prefixE)
  next
    case False
    with Cons.prems obtain b' where "py_partition sep cs = Some (b', a)" "b = c # b'"
      by (auto split: if_splits)
    with Cons.IH show ?thesis by auto
  qed
qed

lemma drop_append_short: "n \<le> length xs \<Longrightarrow> drop n (xs @ ys) = drop n xs @ ys"
  by simp

lemma py_partition_leftmost:
  "py_partition sep s = Some (b, a) \<Longrightarrow> s = p @ sep @ r \<Longrightarrow> length b \<le> length p"
proof (induction s arbitrary: b p)
  case Nil
  then show ?case by (auto split: if_splits)
next
  case (Cons c cs)
  show ?case
  proof (cases "prefix sep (c # cs)")
    case True
    with Cons.prems(1) have "b = []" by simp
    then show ?thesis by simp
  next
    case False
    with Cons.prems(1) obtain b' where b': "py_partition sep cs = Some (b', a)" "b = c # b'"
      by (auto split: if_splits)
    from False Cons.prems(2) have "p \<noteq> []" by auto
    with Cons.prems(2) obtain p' where p': "p = c # p'" "cs = p' @ sep @ r"
      by (cases p) auto
    from Cons.IH [OF b'(1) p'(2)] b'(2) p'(1) show ?thesis by simp
  qed
qed

text \<open>
  A body that neither contains the closing marker nor ends with a backquote cannot
  form the closing marker early, together with the marker that follows it.
\<close>

lemma no_fence_before_close:
  assumes nsub: "\<not> sublist ''```'' C" and nsuf: "\<not> suffix ''`'' C"
  shows "\<forall>k<length C. \<not> prefix ''```'' (drop k (C @ ''```'' @ E))"
proof (intro allI impI notI)
  fix k assume k: "k < length C" and p: "prefix ''```'' (drop k (C @ ''```'' @ E))"
  define D where "D = drop k C"
  have D: "D \<noteq> []" "suffix D C" using k by (auto simp: D_def suffix_drop)
  from p k have p': "prefix ''```'' (D @ ''```'' @ E)" by (simp add: D_def)
  from D(2) nsuf have lastD: "\<not> suffix ''`'' D" using suffix_order.trans by blast
  from D(2) nsub have nsubD: "\<not> sublist ''```'' D"
    by (meson sublist_order.order.trans suffix_imp_sublist)
  show False
  proof (cases D)
    case Nil
    with D show ?thesis by simp
  next
    case (Cons x1 D1)
    note c1 = Cons
    with p' have x1: "x1 = CHR 0x60" by simp
    show ?thesis
    proof (cases D1)
      case Nil
      with c1 x1 lastD show ?thesis by simp
    next
      case (Cons x2 D2)
      note c2 = Cons
      with c1 p' x1 have x2: "x2 = CHR 0x60" by simp
      show ?thesis
      proof (cases D2)
        case Nil
        with c1 c2 x2 lastD show ?thesis by (simp add: suffix_def)
      next
        case (Cons x3 D3)
        with c1 c2 p' x1 x2 have "x3 = CHR 0x60" by simp
        with c1 c2 Cons x1 x2 have "prefix ''```'' D" by simp
        with nsubD show ?thesis using prefix_imp_sublist by blast
      qed
    qed
  qed
qed

lemma re_search_fenced:
  assumes "\<forall>k<length pre. \<not> prefix ''```python'' (drop k (pre @ ''```python'' @ C @ ''```'' @ E))"
      and "\<not> sublist ''```'' C" and "\<not> suffix ''`'' C"
  shows "re_search (pre @ ''```python'' @ C @ ''```'' @ E) = Some (C, lazy_to_dollar E)"
proof -
  have 1: "py_partition ''```python'' (pre @ ''```python'' @ C @ ''```'' @ E)
             = Some (pre, C @ ''```'' @ E)"
    by (rule py_partition_first) (rule assms(1))
  have 2: "py_partition ''```'' (C @ ''```'' @ E) = Some (C, E)"
    by (rule py_partition_first) (rule no_fence_before_close [OF assms(2,3)])
  show ?thesis by (simp only: re_search_def 1 2 option.case prod.case)
qed

text \<open>
  What the search returns is a match of the pattern: the text is some prefix, the
  opening marker, group 1, the closing marker, group 2 and what \<^verbatim>\<open>$\<close> allows after
  it, and group 1 holds no closing marker.
\<close>

lemma re_search_match:
  assumes "re_search output = Some (g1, g2)"
  shows "\<exists>pre post. output = pre @ ''```python'' @ g1 @ ''```'' @ g2 @ post \<and>
           (post = [] \<or> post = [newline]) \<and> \<not> sublist ''```'' g1"
proof -
  from assms obtain pre rest tail where
    1: "py_partition ''```python'' output = Some (pre, rest)" and
    2: "py_partition ''```'' rest = Some (g1, tail)" and
    3: "g2 = lazy_to_dollar tail"
    by (auto simp: re_search_def split: option.splits)
  from 1 have o: "output = pre @ ''```python'' @ rest" by (rule py_partition_Some_decomp)
  from 2 have r: "rest = g1 @ ''```'' @ tail" by (rule py_partition_Some_decomp)
  obtain post where t: "tail = g2 @ post" "post = [] \<or> post = [newline]"
  proof (cases "tail \<noteq> [] \<and> last tail = newline")
    case True
    then have "tail = butlast tail @ [newline]" by (metis append_butlast_last_id)
    with True 3 show ?thesis by (intro that [of "[newline]"]) (simp_all add: lazy_to_dollar_def)
  next
    case False
    with 3 show ?thesis by (intro that [of "[]"]) (auto simp: lazy_to_dollar_def)
  qed
  have "\<not> sublist ''```'' g1"
  proof
    assume "sublist ''```'' g1"
    then obtain p s where "g1 = p @ ''```'' @ s" by (auto simp: sublist_def)
    with r have "rest = p @ ''```'' @ (s @ ''```'' @ tail)" by simp
    with 2 have "length g1 \<le> length p" by (rule py_partition_leftmost)
    with \<open>g1 = p @ ''```'' @ s\<close> show False by simp
  qed
  with o r t show ?thesis by auto
qed

text \<open>The search fails only on a text in which the pattern has no match at all.\<close>

lemma re_search_None_iff:
  "re_search output = None \<longleftrightarrow>
     \<not> (\<exists>pre body rest. output = pre @ ''```python'' @ body @ ''```'' @ rest)"
proof
  assume n: "re_search output = None"
  show "\<not> (\<exists>pre body rest. output = pre @ ''```python'' @ body @ ''```'' @ rest)"
  proof
    assume "\<exists>pre body rest. output = pre @ ''```python'' @ body @ ''```'' @ rest"
    then obtain pre body rest where
      o: "output = pre @ ''```python'' @ (body @ ''```'' @ rest)" by auto
    then have "sublist ''```python'' output" by (auto simp: sublist_def)
    then obtain b a where p: "py_partition ''```python'' output = Some (b, a)"
      by (cases "py_partition ''```python'' output") (auto simp: py_partition_None_iff)
    from p o have le: "length b \<le> length pre" by (rule py_partition_leftmost)
    from p have "output = b @ ''```python'' @ a" by (rule py_partition_Some_decomp)
    then have "a = drop (length b + 9) output" by simp
    also have "output = (pre @ ''```python'' @ body) @ ''```'' @ rest"
      by (simp add: o)
    also have "drop (length b + 9) ((pre @ ''```python'' @ body) @ ''```'' @ rest)
                 = drop (length b + 9) (pre @ ''```python'' @ body) @ ''```'' @ rest"
      using le by (intro drop_append_short) simp
    finally have a: "a = drop (length b + 9) (pre @ ''```python'' @ body) @ ''```'' @ rest" .
    have "sublist ''```'' a" by (subst a) (rule sublist_appendI)
    then have "py_partition ''```'' a \<noteq> None" by (simp add: py_partition_None_iff)
    with p n show False by (auto simp: re_search_def split: option.splits)
  qed
next
  assume n: "\<not> (\<exists>pre body rest. output = pre @ ''```python'' @ body @ ''```'' @ rest)"
  show "re_search output = None"
  proof (cases "re_search output")
    case None
    then show ?thesis .
  next
    case (Some g)
    then obtain g1 g2 where "re_search output = Some (g1, g2)" by (cases g) auto
    from re_search_match [OF this] n show ?thesis by blast
  qed
qed

lemma lazy_to_dollar_unchanged: "\<not> suffix [newline] E \<Longrightarrow> lazy_to_dollar E = E"
  by (cases E rule: rev_cases) (auto simp: lazy_to_dollar_def)

lemma none_has_no_fence: "\<not> sublist ''```'' ''None''" "\<not> suffix ''`'' ''None''"
  by (simp_all add: sublist_Cons_right suffix_to_prefix)

text \<open>
  C3, as the code has it. A raw text whose first python fence has the body \<open>None\<close>
  parses to no code, and the explanation is kept: it is the text after the closing
  marker, without one final newline. The explanation is not discarded.
\<close>

theorem parse_code_sentinel:
  assumes "\<forall>k<length pre. \<not> prefix ''```python''
             (drop k (pre @ ''```python'' @ ''None'' @ ''```'' @ rest))"
  shows "parse_code (pre @ ''```python'' @ ''None'' @ ''```'' @ rest) =
           (None, Some (lazy_to_dollar rest))"
proof -
  have "re_search (pre @ ''```python'' @ ''None'' @ ''```'' @ rest) =
          Some (''None'', lazy_to_dollar rest)"
    using assms none_has_no_fence by (rule re_search_fenced)
  then show ?thesis by (simp add: parse_code_def)
qed

theorem parse_code_sentinel_witness:
  "length ''x'' = 1 \<and>
   \<not> prefix ''```python'' (drop 0 (''x'' @ ''```python'' @ ''None'' @ ''```'' @ ''hello'')) \<and>
   parse_code (''x'' @ ''```python'' @ ''None'' @ ''```'' @ ''hello'') = (None, Some ''hello'')"
proof -
  have h: "\<forall>k<length ''x''. \<not> prefix ''```python''
             (drop k (''x'' @ ''```python'' @ ''None'' @ ''```'' @ ''hello''))"
    by simp
  have "lazy_to_dollar ''hello'' = ''hello''"
    by (simp add: lazy_to_dollar_def newline_def)
  with parse_code_sentinel [OF h] show ?thesis by simp
qed

text \<open>
  C3 as stated fails: with the body \<open>None\<close> the code is absent, yet the explanation
  after the closing marker is returned.
\<close>

theorem parse_code_sentinel_counterexample:
  "parse_code ''```pythonNone```hello'' = (None, Some ''hello'') \<and>
   parse_code ''```pythonNone```hello'' \<noteq> (None, None)"
  by code_simp

text \<open>
  C5, as the code has it. For a code string \<open>C\<close> that does not contain the closing
  marker, does not end with a backquote and is not the sentinel \<open>None\<close>, and an
  explanation \<open>E\<close> that does not end with a newline, parsing the text built from the
  opening marker, \<open>C\<close>, the closing marker and \<open>E\<close> returns exactly \<open>(C, E)\<close>.
\<close>

theorem parse_code_round_trip:
  assumes "\<not> sublist ''```'' C" and "\<not> suffix ''`'' C" and "C \<noteq> ''None''"
      and "\<not> suffix [newline] E"
  shows "parse_code (''```python'' @ C @ ''```'' @ E) = (Some C, Some E)"
proof -
  have "re_search ([] @ ''```python'' @ C @ ''```'' @ E) = Some (C, lazy_to_dollar E)"
    using assms(1,2) by (intro re_search_fenced) simp_all
  then have "re_search (''```python'' @ C @ ''```'' @ E) = Some (C, E)"
    using assms(4) by (simp add: lazy_to_dollar_unchanged)
  then show ?thesis
    using assms(3) by (simp add: parse_code_def)
qed

theorem parse_code_round_trip_witness:
  "\<not> sublist ''```'' ''x = 1'' \<and> \<not> suffix ''`'' ''x = 1'' \<and> ''x = 1'' \<noteq> ''None'' \<and>
   \<not> suffix [newline] ''done'' \<and>
   parse_code (''```python'' @ ''x = 1'' @ ''```'' @ ''done'') = (Some ''x = 1'', Some ''done'')"
proof -
  have h1: "\<not> sublist ''```'' ''x = 1''" by (simp add: sublist_Cons_right)
  have h2: "\<not> suffix ''`'' ''x = 1''" by (simp add: suffix_to_prefix)
  have h3: "''x = 1'' \<noteq> ''None''" by simp
  have h4: "\<not> suffix [newline] ''done''" by (simp add: suffix_to_prefix newline_def)
  from parse_code_round_trip [OF h1 h2 h3 h4] h1 h2 h3 h4 show ?thesis by blast
qed

text \<open>
  C5 as stated fails for three kinds of input that contain no closing marker in the
  code: the sentinel \<open>None\<close> as code, an explanation ending with a newline, and a code
  ending with a backquote.
\<close>

theorem parse_code_round_trip_counterexample:
  "\<not> sublist ''```'' ''None'' \<and>
   parse_code (''```python'' @ ''None'' @ ''```'' @ ''ok'') = (None, Some ''ok'') \<and>
   \<not> sublist ''```'' ''x = 1'' \<and>
   parse_code (''```python'' @ ''x = 1'' @ ''```'' @ [CHR ''o'', CHR ''k'', newline])
     = (Some ''x = 1'', Some ''ok'') \<and>
   \<not> sublist ''```'' ''x`'' \<and>
   parse_code (''```python'' @ ''x`'' @ ''```'' @ ''ok'') = (Some ''x'', Some ''`ok'')"
  by code_simp

section \<open>Properties of the context budgeter\<close>

lemma slice_to_length: "slice_to xs (int (length xs)) = xs"
  by (simp add: slice_to_def)

lemma slice_to_nat: "slice_to xs (int k) = take k xs"
  by (simp add: slice_to_def)

lemma slice_to_prefix: "prefix (slice_to xs k) xs"
  by (simp add: slice_to_def take_is_prefix)

lemma take_length_prefix: "prefix ys xs \<Longrightarrow> take (length ys) xs = ys"
  by (auto simp: prefix_def)

lemma spec_reduce_prefix: "prefix (spec_reduce cost limit docs) docs"
proof (induction cost limit docs rule: spec_reduce.induct)
  case (1 cost limit docs)
  show ?case
  proof (cases "docs \<noteq> [] \<and> sum_list (map cost docs) > limit")
    case True
    with "1.IH" have "prefix (spec_reduce cost limit (butlast docs)) (butlast docs)" by simp
    moreover have "prefix (butlast docs) docs" by (simp add: prefixeq_butlast)
    ultimately have "prefix (spec_reduce cost limit (butlast docs)) docs"
      using prefix_order.trans by blast
    with True show ?thesis by (subst spec_reduce.simps) simp
  next
    case False
    then show ?thesis by (subst spec_reduce.simps) auto
  qed
qed

lemma spec_reduce_fits:
  "0 \<le> limit \<Longrightarrow> sum_list (map cost (spec_reduce cost limit docs)) \<le> limit"
proof (induction cost limit docs rule: spec_reduce.induct)
  case (1 cost limit docs)
  show ?case
  proof (cases "docs \<noteq> [] \<and> sum_list (map cost docs) > limit")
    case True
    with 1 show ?thesis by (subst spec_reduce.simps) simp
  next
    case False
    with "1.prems" show ?thesis by (subst spec_reduce.simps) (cases docs; auto)
  qed
qed

lemma spec_reduce_fixed:
  "sum_list (map cost docs) \<le> limit \<Longrightarrow> spec_reduce cost limit docs = docs"
  by (subst spec_reduce.simps) simp

lemma spec_reduce_idem:
  "0 \<le> limit \<Longrightarrow>
   spec_reduce cost limit (spec_reduce cost limit docs) = spec_reduce cost limit docs"
  by (simp add: spec_reduce_fixed spec_reduce_fits)

text \<open>
  The loop started on the first \<open>m\<close> documents with their total stops where the
  specification's trimming of these \<open>m\<close> documents stops, for a limit that is not
  negative.
\<close>

lemma reduce_loop_spec:
  assumes "0 \<le> limit"
  shows "m \<le> length docs \<Longrightarrow>
     reduce_loop (map cost docs) limit (int m) (sum_list (map cost (take m docs))) =
       Inr (int (length (spec_reduce cost limit (take m docs))))"
proof (induction m)
  case 0
  with assms show ?case
    by (simp add: reduce_loop.simps spec_reduce_fixed)
next
  case (Suc m)
  then have m: "m < length docs" by simp
  have tk: "take (Suc m) docs = take m docs @ [docs ! m]"
    using m by (simp add: take_Suc_conv_app_nth)
  show ?case
  proof (cases "sum_list (map cost (take (Suc m) docs)) > limit")
    case True
    have get: "list_getitem (map cost docs) (int (Suc m) - 1) = Inr (cost (docs ! m))"
      using m by (simp add: list_getitem_def)
    have sub: "sum_list (map cost (take (Suc m) docs)) - cost (docs ! m)
                 = sum_list (map cost (take m docs))"
      by (simp add: tk)
    have sp: "spec_reduce cost limit (take (Suc m) docs) = spec_reduce cost limit (take m docs)"
      using True by (subst spec_reduce.simps) (simp add: tk)
    have "reduce_loop (map cost docs) limit (int (Suc m)) (sum_list (map cost (take (Suc m) docs)))
          = reduce_loop (map cost docs) limit (int (Suc m) - 1) (sum_list (map cost (take m docs)))"
      using True by (subst reduce_loop.simps) (simp only: get sub if_True sum.case)
    also have "int (Suc m) - 1 = int m" by simp
    finally show ?thesis using Suc.IH m sp by simp
  next
    case False
    then have "spec_reduce cost limit (take (Suc m) docs) = take (Suc m) docs"
      by (simp add: spec_reduce_fixed)
    moreover have "length (take (Suc m) docs) = Suc m" using m by simp
    ultimately show ?thesis using False by (subst reduce_loop.simps) simp
  qed
qed

lemma reduce_positive:
  assumes "max_tokens_limit self = Some limit" and "0 < limit" and "combine_is_stuff self"
  shows "reduce_tokens_below_limit self docs =
           Inr (spec_reduce (\<lambda>doc. get_num_tokens self (page_content doc)) limit docs)"
proof -
  let ?cost = "\<lambda>doc. get_num_tokens self (page_content doc)"
  have "reduce_loop (map ?cost docs) limit (int (length docs))
          (sum_list (map ?cost (take (length docs) docs)))
         = Inr (int (length (spec_reduce ?cost limit (take (length docs) docs))))"
    using assms(2) by (intro reduce_loop_spec) simp_all
  then have loop: "reduce_loop (map ?cost docs) limit (int (length docs))
          (sum_list (map ?cost docs))
         = Inr (int (length (spec_reduce ?cost limit docs)))" by simp
  have "take (length (spec_reduce ?cost limit docs)) docs = spec_reduce ?cost limit docs"
    by (rule take_length_prefix) (rule spec_reduce_prefix)
  with loop assms show ?thesis
    by (simp add: reduce_tokens_below_limit_def slice_to_length slice_to_nat)
qed

lemma reduce_unchanged:
  assumes "max_tokens_limit self = None \<or> max_tokens_limit self = Some 0
             \<or> \<not> combine_is_stuff self"
  shows "reduce_tokens_below_limit self docs = Inr docs"
  using assms
  by (auto simp: reduce_tokens_below_limit_def Let_def slice_to_length split: option.splits)

lemma reduce_prefix:
  "reduce_tokens_below_limit self docs = Inr out \<Longrightarrow> prefix out docs"
  by (auto simp: reduce_tokens_below_limit_def Let_def slice_to_prefix
      split: option.splits if_splits sum.splits)

text \<open>
  C4, as the code has it. The budgeter returns the documents unchanged when the limit
  is unset, when it is zero, and when the synthesis chain is not the stuffing chain.
  With the stuffing chain and a positive limit it returns what the specification's
  trimming returns: the last document is dropped while the total cost exceeds the
  limit. Whenever it returns, it returns a prefix of its input. With the limit 100 and
  three documents of 40 tokens each it returns the first two.
\<close>

theorem reduce_tokens_budget:
  "reduce_tokens_below_limit (self\<lparr>max_tokens_limit := None\<rparr>) docs = Inr docs \<and>
   reduce_tokens_below_limit (self\<lparr>max_tokens_limit := Some 0\<rparr>) docs = Inr docs \<and>
   reduce_tokens_below_limit (self\<lparr>combine_is_stuff := False\<rparr>) docs = Inr docs \<and>
   (combine_is_stuff self \<and> 0 < limit \<longrightarrow>
      reduce_tokens_below_limit (self\<lparr>max_tokens_limit := Some limit\<rparr>) docs =
        Inr (spec_reduce (\<lambda>doc. get_num_tokens self (page_content doc)) limit docs)) \<and>
   (reduce_tokens_below_limit self docs = Inr out \<longrightarrow> prefix out docs) \<and>
   (combine_is_stuff self \<and>
    map (\<lambda>doc. get_num_tokens self (page_content doc)) [d1, d2, d3] = [40, 40, 40] \<longrightarrow>
      reduce_tokens_below_limit (self\<lparr>max_tokens_limit := Some 100\<rparr>) [d1, d2, d3] =
        Inr [d1, d2])"
proof (intro conjI impI)
  show "reduce_tokens_below_limit (self\<lparr>max_tokens_limit := None\<rparr>) docs = Inr docs"
    by (rule reduce_unchanged) simp
  show "reduce_tokens_below_limit (self\<lparr>max_tokens_limit := Some 0\<rparr>) docs = Inr docs"
    by (rule reduce_unchanged) simp
  show "reduce_tokens_below_limit (self\<lparr>combine_is_stuff := False\<rparr>) docs = Inr docs"
    by (rule reduce_unchanged) simp
next
  assume "combine_is_stuff self \<and> 0 < limit"
  then show "reduce_tokens_below_limit (self\<lparr>max_tokens_limit := Some limit\<rparr>) docs =
        Inr (spec_reduce (\<lambda>doc. get_num_tokens self (page_content doc)) limit docs)"
    using reduce_positive [of "self\<lparr>max_tokens_limit := Some limit\<rparr>" limit docs] by simp
next
  assume "reduce_tokens_below_limit self docs = Inr out"
  then show "prefix out docs" by (rule reduce_prefix)
next
  let ?cost = "\<lambda>doc. get_num_tokens self (page_content doc)"
  assume a: "combine_is_stuff self \<and> map ?cost [d1, d2, d3] = [40, 40, 40]"
  then have "spec_reduce ?cost 100 [d1, d2, d3] = spec_reduce ?cost 100 [d1, d2]"
    by (subst spec_reduce.simps) simp
  also have "\<dots> = [d1, d2]"
    using a by (subst spec_reduce.simps) simp
  finally have "spec_reduce ?cost 100 [d1, d2, d3] = [d1, d2]" .
  with a show "reduce_tokens_below_limit (self\<lparr>max_tokens_limit := Some 100\<rparr>) [d1, d2, d3] =
        Inr [d1, d2]"
    using reduce_positive [of "self\<lparr>max_tokens_limit := Some 100\<rparr>" 100 "[d1, d2, d3]"]
    by simp
qed

theorem reduce_tokens_budget_witness:
  "combine_is_stuff (example_chain []) \<and> (0::int) < 100 \<and>
   reduce_tokens_below_limit (example_chain [])
     [example_doc ''aaaa'', example_doc ''bbbb'', example_doc ''cccc'']
     = Inr [example_doc ''aaaa'', example_doc ''bbbb''] \<and>
   map (\<lambda>doc. get_num_tokens (example_chain []) (page_content doc))
     [example_doc ''aaaa'', example_doc ''bbbb'', example_doc ''cccc''] = [40, 40, 40] \<and>
   prefix [example_doc ''aaaa'', example_doc ''bbbb'']
     [example_doc ''aaaa'', example_doc ''bbbb'', example_doc ''cccc''] \<and>
   reduce_tokens_below_limit ((example_chain [])\<lparr>max_tokens_limit := Some 100\<rparr>)
     [example_doc ''aaaa'', example_doc ''bbbb'', example_doc ''cccc'']
     = Inr [example_doc ''aaaa'', example_doc ''bbbb'']"
proof -
  let ?docs = "[example_doc ''aaaa'', example_doc ''bbbb'', example_doc ''cccc'']"
  have stuff: "combine_is_stuff (example_chain [])"
    by (simp add: example_chain_def)
  have costs: "map (\<lambda>doc. get_num_tokens (example_chain []) (page_content doc)) ?docs
                 = [40, 40, 40]"
    by (simp add: example_chain_def example_doc_def)
  have same: "(example_chain [])\<lparr>max_tokens_limit := Some 100\<rparr> = example_chain []"
    by (simp add: example_chain_def)
  note inst = reduce_tokens_budget [of "example_chain []" ?docs 100
      "[example_doc ''aaaa'', example_doc ''bbbb'']"
      "example_doc ''aaaa''" "example_doc ''bbbb''" "example_doc ''cccc''"]
  from inst stuff costs have run: "reduce_tokens_below_limit
      ((example_chain [])\<lparr>max_tokens_limit := Some 100\<rparr>) ?docs
      = Inr [example_doc ''aaaa'', example_doc ''bbbb'']"
    by blast
  with same have run': "reduce_tokens_below_limit (example_chain []) ?docs
      = Inr [example_doc ''aaaa'', example_doc ''bbbb'']"
    by simp
  with inst have "prefix [example_doc ''aaaa'', example_doc ''bbbb''] ?docs"
    by blast
  with stuff costs run run' show ?thesis by simp
qed

text \<open>
  C4 as stated fails for a configured limit of zero: the limit is tested for truth, so
  a single document of 40 tokens is returned although its cost exceeds the limit. It
  also fails for a negative limit, where the loop runs past the first document: on no
  documents at all it raises \<^verbatim>\<open>IndexError\<close> and returns nothing.
\<close>

theorem reduce_tokens_budget_counterexample:
  "max_tokens_limit ((example_chain [])\<lparr>max_tokens_limit := Some 0\<rparr>) = Some 0 \<and>
   combine_is_stuff ((example_chain [])\<lparr>max_tokens_limit := Some 0\<rparr>) \<and>
   get_num_tokens ((example_chain [])\<lparr>max_tokens_limit := Some 0\<rparr>)
     (page_content (example_doc ''aaaa'')) = 40 \<and>
   reduce_tokens_below_limit ((example_chain [])\<lparr>max_tokens_limit := Some 0\<rparr>)
     [example_doc ''aaaa''] = Inr [example_doc ''aaaa''] \<and>
   reduce_tokens_below_limit ((example_chain [])\<lparr>max_tokens_limit := Some (- 1)\<rparr>) []
     = Inl IndexError"
  by code_simp

text \<open>
  C6, as the code has it. For a limit that is unset, zero or positive, the budgeter
  returns, and applying it to its own result returns that result again.
\<close>

theorem reduce_tokens_idempotent:
  assumes "case max_tokens_limit self of None \<Rightarrow> True | Some limit \<Rightarrow> 0 \<le> limit"
  shows "case reduce_tokens_below_limit self docs of
           Inl e \<Rightarrow> False
         | Inr out \<Rightarrow> reduce_tokens_below_limit self out = Inr out"
proof (cases "max_tokens_limit self = None \<or> max_tokens_limit self = Some 0
                \<or> \<not> combine_is_stuff self")
  case True
  then have "reduce_tokens_below_limit self xs = Inr xs" for xs
    by (rule reduce_unchanged)
  then show ?thesis by simp
next
  case False
  with assms obtain limit where l: "max_tokens_limit self = Some limit" "0 < limit"
    by (cases "max_tokens_limit self") auto
  from False have stuff: "combine_is_stuff self" by simp
  let ?cost = "\<lambda>doc. get_num_tokens self (page_content doc)"
  have r: "reduce_tokens_below_limit self xs = Inr (spec_reduce ?cost limit xs)" for xs
    using l stuff by (rule reduce_positive)
  have "spec_reduce ?cost limit (spec_reduce ?cost limit docs) = spec_reduce ?cost limit docs"
    using l(2) by (intro spec_reduce_idem) simp
  then show ?thesis by (simp add: r)
qed

theorem reduce_tokens_idempotent_witness:
  "(case max_tokens_limit (example_chain []) of None \<Rightarrow> True | Some limit \<Rightarrow> 0 \<le> limit) \<and>
   reduce_tokens_below_limit (example_chain [])
     [example_doc ''aaaa'', example_doc ''bbbb'', example_doc ''cccc'']
     = Inr [example_doc ''aaaa'', example_doc ''bbbb''] \<and>
   reduce_tokens_below_limit (example_chain []) [example_doc ''aaaa'', example_doc ''bbbb'']
     = Inr [example_doc ''aaaa'', example_doc ''bbbb'']"
proof -
  have h: "case max_tokens_limit (example_chain []) of None \<Rightarrow> True | Some limit \<Rightarrow> 0 \<le> limit"
    by (simp add: example_chain_def)
  have first: "reduce_tokens_below_limit (example_chain [])
     [example_doc ''aaaa'', example_doc ''bbbb'', example_doc ''cccc'']
     = Inr [example_doc ''aaaa'', example_doc ''bbbb'']"
    by code_simp
  from reduce_tokens_idempotent [OF h,
      of "[example_doc ''aaaa'', example_doc ''bbbb'', example_doc ''cccc'']"] first
  have "reduce_tokens_below_limit (example_chain []) [example_doc ''aaaa'', example_doc ''bbbb'']
     = Inr [example_doc ''aaaa'', example_doc ''bbbb'']"
    by simp
  with h first show ?thesis by blast
qed

text \<open>
  C6 as stated fails for a negative limit: with the limit \<open>-50\<close> and documents of 10
  and 100 tokens the budgeter returns the first document, and applied to that result it
  raises \<^verbatim>\<open>IndexError\<close>.
\<close>

theorem reduce_tokens_idempotent_counterexample:
  "reduce_tokens_below_limit ((example_chain [])\<lparr>max_tokens_limit := Some (- 50)\<rparr>)
     [example_doc ''a'', example_doc ''aaaaaaaaaa''] = Inr [example_doc ''a''] \<and>
   reduce_tokens_below_limit ((example_chain [])\<lparr>max_tokens_limit := Some (- 50)\<rparr>)
     [example_doc ''a''] = Inl IndexError"
  by code_simp

section \<open>Properties of the pipeline\<close>

text \<open>How a step continues, by the response it gets.\<close>

lemma then_do_lift_Inl: "r = Inl e \<Longrightarrow> then_do (lift r) f tr = (tr, Inl e)"
  by (simp add: then_do_def lift_def)

lemma then_do_lift_Inr: "r = Inr x \<Longrightarrow> then_do (lift r) f tr = f x tr"
  by (simp add: then_do_def lift_def)

lemma then_do_service_Inl: "r = Inl e \<Longrightarrow> then_do (service ev r) f tr = (tr @ [ev], Inl e)"
  by (simp add: then_do_def service_def)

lemma then_do_service_Inr: "r = Inr x \<Longrightarrow> then_do (service ev r) f tr = f x (tr @ [ev])"
  by (simp add: then_do_def service_def)

lemma then_do_ret: "then_do (ret x) f tr = f x tr"
  by (simp add: then_do_def ret_def)

lemma then_do_get_docs_Inl1:
  "get_relevant_documents self q = Inl e \<Longrightarrow>
   then_do (get_docs self q inputs) f tr = (tr @ [Retrieve q], Inl e)"
  by (simp add: get_docs_def then_do_def service_def)

lemma then_do_get_docs_Inl2:
  "get_relevant_documents self q = Inr docs0 \<Longrightarrow> reduce_tokens_below_limit self docs0 = Inl e \<Longrightarrow>
   then_do (get_docs self q inputs) f tr = (tr @ [Retrieve q], Inl e)"
  by (simp add: get_docs_def then_do_def service_def lift_def)

lemma then_do_get_docs_Inr:
  "get_relevant_documents self q = Inr docs0 \<Longrightarrow> reduce_tokens_below_limit self docs0 = Inr ds \<Longrightarrow>
   then_do (get_docs self q inputs) f tr = f ds (tr @ [Retrieve q])"
  by (simp add: get_docs_def then_do_def service_def lift_def)

lemma then_do_combine_clash:
  "map_of ni ''input_documents'' \<noteq> None \<or> map_of ni ''callbacks'' \<noteq> None \<Longrightarrow>
   then_do (combine_docs_call m ds ni) f tr =
     (tr, Inl (TypeError ''got multiple values for keyword argument''))"
  by (simp add: combine_docs_call_def then_do_def lift_def)

lemma then_do_combine_Inl:
  "\<not> (map_of ni ''input_documents'' \<noteq> None \<or> map_of ni ''callbacks'' \<noteq> None) \<Longrightarrow>
   m ds ni = Inl e \<Longrightarrow>
   then_do (combine_docs_call m ds ni) f tr = (tr @ [Synthesize ds ni], Inl e)"
  by (simp add: combine_docs_call_def then_do_def service_def)

lemma then_do_combine_Inr:
  "\<not> (map_of ni ''input_documents'' \<noteq> None \<or> map_of ni ''callbacks'' \<noteq> None) \<Longrightarrow>
   m ds ni = Inr answer \<Longrightarrow>
   then_do (combine_docs_call m ds ni) f tr = f answer (tr @ [Synthesize ds ni])"
  by (simp add: combine_docs_call_def then_do_def service_def)

lemma call_tail:
  fixes self :: chain and answer :: string and nq :: string and ds :: "document list"
  defines "tail \<equiv>
        (case parse_code answer of (code, expl) \<Rightarrow>
           then_do (case code of
                None \<Rightarrow> ret (PyBool True)
              | Some c \<Rightarrow> then_do (service (Critique c) (constitutional_run self c))
                            (\<lambda>verdict. ret (PyStr verdict))) (\<lambda>is_code_not_safe.
           then_do (lift (list_getitem (output_key self) 0)) (\<lambda>key0.
           then_do (lift (list_getitem (output_key self) 1)) (\<lambda>key1.
           let output = AList.update key1 (opt_str expl) (AList.update key0 (opt_str code) []);
               output = (if return_source_documents self
                   then AList.update ''source_documents'' (PyDocs ds) output else output);
               output = (if return_generated_question self
                   then AList.update ''generated_question''
                          (PyStr (py_replace ''python'' [] (py_replace ''streamlit'' [] nq))) output
                   else output);
               output = (if return_revision_request self
                   then AList.update ''revision_request'' is_code_not_safe output else output)
           in ret output))))"
  shows "fst (tail tr) =
           tr @ (case fst (parse_code answer) of None \<Rightarrow> [] | Some c \<Rightarrow> [Critique c])"
    and "snd (tail tr) = Inr out \<Longrightarrow> return_generated_question self \<Longrightarrow>
           map_of out ''generated_question'' =
             Some (PyStr (py_replace ''python'' [] (py_replace ''streamlit'' [] nq)))"
    and "snd (tail tr) = Inr out \<Longrightarrow> return_revision_request self \<Longrightarrow>
           fst (parse_code answer) = None \<Longrightarrow>
           map_of out ''revision_request'' = Some (PyBool True)"
    and "snd (tail tr) = Inr out \<Longrightarrow> return_revision_request self \<Longrightarrow>
           fst (parse_code answer) = Some c \<Longrightarrow>
           \<exists>verdict. constitutional_run self c = Inr verdict \<and>
             map_of out ''revision_request'' = Some (PyStr verdict)"
  unfolding tail_def
  by (auto simp: then_do_def ret_def lift_def service_def Let_def update_conv'
      simp del: AList.update.simps
      split: prod.splits option.splits sum.splits)

lemma call_cases [case_names failed synth_failed parsed]:
  obtains
    (failed) tr e where "call dh self inputs = (tr, Inl e)"
      and "\<forall>ds ni. Synthesize ds ni \<notin> set tr" and "\<forall>c. Critique c \<notin> set tr"
      and "\<And>request. map_of inputs ''question'' = Some request \<Longrightarrow>
             \<exists>rest. tr = Condense request # rest"
      and "\<And>query. Retrieve query \<in> set tr \<Longrightarrow>
             \<exists>request. map_of inputs ''question'' = Some request \<and>
               question_generator_run self request = Inr query"
  | (synth_failed) request nq docs0 ds fmt h hs e where
      "map_of inputs ''question'' = Some request"
      and "question_generator_run self request = Inr nq"
      and "get_relevant_documents self nq = Inr docs0"
      and "reduce_tokens_below_limit self docs0 = Inr ds"
      and "or_default (get_chat_history self) dh = Inr fmt"
      and "map_of inputs ''chat_history'' = Some h"
      and "fmt h = Inr hs"
      and "combine_docs_run self ds (AList.update ''chat_history'' (PyStr hs) inputs) = Inl e"
      and "call dh self inputs =
         ([Condense request, Retrieve nq,
           Synthesize ds (AList.update ''chat_history'' (PyStr hs) inputs)], Inl e)"
  | (parsed) request nq docs0 ds fmt h hs answer where
      "map_of inputs ''question'' = Some request"
      and "question_generator_run self request = Inr nq"
      and "get_relevant_documents self nq = Inr docs0"
      and "reduce_tokens_below_limit self docs0 = Inr ds"
      and "or_default (get_chat_history self) dh = Inr fmt"
      and "map_of inputs ''chat_history'' = Some h"
      and "fmt h = Inr hs"
      and "combine_docs_run self ds (AList.update ''chat_history'' (PyStr hs) inputs) = Inr answer"
      and "fst (call dh self inputs) =
             [Condense request, Retrieve nq,
              Synthesize ds (AList.update ''chat_history'' (PyStr hs) inputs)] @
             (case fst (parse_code answer) of None \<Rightarrow> [] | Some c \<Rightarrow> [Critique c])"
      and "\<And>out. snd (call dh self inputs) = Inr out \<Longrightarrow> return_generated_question self \<Longrightarrow>
             map_of out ''generated_question'' =
               Some (PyStr (py_replace ''python'' [] (py_replace ''streamlit'' [] nq)))"
      and "\<And>out. snd (call dh self inputs) = Inr out \<Longrightarrow> return_revision_request self \<Longrightarrow>
             fst (parse_code answer) = None \<Longrightarrow>
             map_of out ''revision_request'' = Some (PyBool True)"
      and "\<And>out c. snd (call dh self inputs) = Inr out \<Longrightarrow> return_revision_request self \<Longrightarrow>
             fst (parse_code answer) = Some c \<Longrightarrow>
             \<exists>verdict. constitutional_run self c = Inr verdict \<and>
               map_of out ''revision_request'' = Some (PyStr verdict)"
proof (cases "dict_getitem inputs ''question''")
  case (Inl e)
  then have eq: "call dh self inputs = ([], Inl e)"
    by (simp add: call_def then_do_lift_Inl)
  from Inl have none: "map_of inputs ''question'' = None"
    by (simp add: dict_getitem_def split: option.splits)
  show ?thesis by (rule failed [OF eq]) (simp_all add: none)
next
  case q: (Inr request)
  then have q': "map_of inputs ''question'' = Some request"
    by (simp add: dict_getitem_def split: option.splits)
  show ?thesis
  proof (cases "question_generator_run self request")
    case (Inl e)
    with q have "call dh self inputs = ([Condense request], Inl e)"
      by (simp add: call_def then_do_lift_Inr then_do_service_Inl)
    then show ?thesis by (rule failed) (simp_all add: q')
  next
    case c: (Inr nq)
    show ?thesis
    proof (cases "get_relevant_documents self nq")
      case (Inl e)
      with q c have "call dh self inputs = ([Condense request, Retrieve nq], Inl e)"
        by (simp add: call_def then_do_lift_Inr then_do_service_Inr then_do_get_docs_Inl1)
      then show ?thesis by (rule failed) (simp_all add: q' c)
    next
      case r: (Inr docs0)
      show ?thesis
      proof (cases "reduce_tokens_below_limit self docs0")
        case (Inl e)
        with q c r have "call dh self inputs = ([Condense request, Retrieve nq], Inl e)"
          by (simp add: call_def then_do_lift_Inr then_do_service_Inr then_do_get_docs_Inl2)
        then show ?thesis by (rule failed) (simp_all add: q' c)
      next
        case b: (Inr ds)
        show ?thesis
        proof (cases "or_default (get_chat_history self) dh")
          case (Inl e)
          with q c r b have "call dh self inputs = ([Condense request, Retrieve nq], Inl e)"
            by (simp add: call_def Let_def then_do_lift_Inr then_do_lift_Inl
                  then_do_service_Inr then_do_get_docs_Inr)
          then show ?thesis by (rule failed) (simp_all add: q' c)
        next
          case o: (Inr fmt)
          show ?thesis
          proof (cases "dict_getitem inputs ''chat_history''")
            case (Inl e)
            with q c r b o have "call dh self inputs = ([Condense request, Retrieve nq], Inl e)"
              by (simp add: call_def Let_def then_do_lift_Inr then_do_lift_Inl
                    then_do_service_Inr then_do_get_docs_Inr)
            then show ?thesis by (rule failed) (simp_all add: q' c)
          next
            case h: (Inr h)
            then have h': "map_of inputs ''chat_history'' = Some h"
              by (simp add: dict_getitem_def split: option.splits)
            show ?thesis
            proof (cases "fmt h")
              case (Inl e)
              with q c r b o h
              have "call dh self inputs = ([Condense request, Retrieve nq], Inl e)"
                by (simp add: call_def Let_def then_do_lift_Inr then_do_lift_Inl
                      then_do_service_Inr then_do_get_docs_Inr)
              then show ?thesis by (rule failed) (simp_all add: q' c)
            next
              case f: (Inr hs)
              let ?ni = "AList.update ''chat_history'' (PyStr hs) inputs"
              show ?thesis
              proof (cases "map_of ?ni ''input_documents'' \<noteq> None
                              \<or> map_of ?ni ''callbacks'' \<noteq> None")
                case True
                with q c r b o h f have "call dh self inputs =
                    ([Condense request, Retrieve nq],
                     Inl (TypeError ''got multiple values for keyword argument''))"
                  by (simp add: call_def Let_def then_do_lift_Inr
                        then_do_service_Inr then_do_get_docs_Inr then_do_combine_clash)
                then show ?thesis by (rule failed) (simp_all add: q' c)
              next
                case False
                note k = False
                show ?thesis
                proof (cases "combine_docs_run self ds ?ni")
                  case (Inl e)
                  with q c r b o h f k have "call dh self inputs =
                      ([Condense request, Retrieve nq, Synthesize ds ?ni], Inl e)"
                    by (simp add: call_def Let_def then_do_lift_Inr
                        then_do_service_Inr then_do_get_docs_Inr then_do_combine_Inl)
                  with q' c r b o h' f Inl show ?thesis by (rule synth_failed)
                next
                  case a: (Inr answer)
                  from q c r b o h f k a have eq: "call dh self inputs =
                    (case parse_code answer of (code, expl) \<Rightarrow>
                     then_do (case code of
                          None \<Rightarrow> ret (PyBool True)
                        | Some c \<Rightarrow> then_do (service (Critique c) (constitutional_run self c))
                                      (\<lambda>verdict. ret (PyStr verdict))) (\<lambda>is_code_not_safe.
                     then_do (lift (list_getitem (output_key self) 0)) (\<lambda>key0.
                     then_do (lift (list_getitem (output_key self) 1)) (\<lambda>key1.
                     let output = AList.update key1 (opt_str expl)
                                    (AList.update key0 (opt_str code) []);
                         output = (if return_source_documents self
                             then AList.update ''source_documents'' (PyDocs ds) output
                             else output);
                         output = (if return_generated_question self
                             then AList.update ''generated_question''
                                    (PyStr (py_replace ''python'' []
                                       (py_replace ''streamlit'' [] nq))) output
                             else output);
                         output = (if return_revision_request self
                             then AList.update ''revision_request'' is_code_not_safe output
                             else output)
                     in ret output))))
                    [Condense request, Retrieve nq, Synthesize ds ?ni]"
                    by (simp add: call_def Let_def then_do_lift_Inr
                        then_do_service_Inr then_do_get_docs_Inr then_do_combine_Inr
                        del: AList.update.simps)
                  show ?thesis
                  proof (rule parsed [OF q' c r b o h' f a])
                    show "fst (call dh self inputs) =
                       [Condense request, Retrieve nq, Synthesize ds ?ni] @
                       (case fst (parse_code answer) of None \<Rightarrow> [] | Some c \<Rightarrow> [Critique c])"
                      unfolding eq by (rule call_tail(1))
                  qed (unfold eq, erule (1) call_tail(2), erule (2) call_tail(3),
                       erule (2) call_tail(4))
                qed
              qed
            qed
          qed
        qed
      qed
    qed
  qed
qed

text \<open>
  The suspendable entry point is the blocking one run on the chain whose blocking
  methods are the awaited ones.
\<close>

lemma reduce_other_fields:
  "reduce_tokens_below_limit (self\<lparr>question_generator_run := a,
      get_relevant_documents := b, combine_docs_run := c\<rparr>) docs
   = reduce_tokens_below_limit self docs"
  by (simp add: reduce_tokens_below_limit_def Let_def cong: option.case_cong if_cong)

lemma acall_as_call:
  "acall dh self inputs =
     call dh (self\<lparr>question_generator_run := question_generator_arun self,
                    get_relevant_documents := aget_relevant_documents self,
                    combine_docs_run := combine_docs_arun self\<rparr>) inputs"
  unfolding call_def acall_def get_docs_def aget_docs_def reduce_other_fields
  by (simp cong: prod.case_cong option.case_cong)

text \<open>
  A run that calls the synthesizer has passed every earlier stage, and its trace starts
  with exactly these three calls.
\<close>

lemma call_synthesize_stages:
  assumes "Synthesize ds ni \<in> set (fst (call dh self inputs))"
  shows "\<exists>request nq docs0 fmt h hs rest.
           map_of inputs ''question'' = Some request \<and>
           question_generator_run self request = Inr nq \<and>
           get_relevant_documents self nq = Inr docs0 \<and>
           reduce_tokens_below_limit self docs0 = Inr ds \<and>
           or_default (get_chat_history self) dh = Inr fmt \<and>
           map_of inputs ''chat_history'' = Some h \<and>
           fmt h = Inr hs \<and>
           ni = AList.update ''chat_history'' (PyStr hs) inputs \<and>
           fst (call dh self inputs) =
             [Condense request, Retrieve nq, Synthesize ds ni] @ rest"
proof (cases rule: call_cases [of dh self inputs])
  case (failed tr e)
  with assms show ?thesis by simp
next
  case (synth_failed request nq docs0 ds' fmt h hs e)
  with assms have "ds = ds'" "ni = AList.update ''chat_history'' (PyStr hs) inputs"
    by simp_all
  with synth_failed show ?thesis by simp
next
  case (parsed request nq docs0 ds' fmt h hs answer)
  with assms have "ds = ds'" "ni = AList.update ''chat_history'' (PyStr hs) inputs"
    by (auto split: option.splits)
  with parsed(1-8) parsed(9) show ?thesis by simp
qed

text \<open>Every query sent to the retriever is the condenser's response, as it came.\<close>

lemma call_retrieve_query:
  assumes "Retrieve query \<in> set (fst (call dh self inputs))"
  shows "\<exists>request. map_of inputs ''question'' = Some request \<and>
           question_generator_run self request = Inr query"
  using assms
  by (cases rule: call_cases [of dh self inputs]) (auto split: option.splits)

lemma call_critic_events:
  assumes "Synthesize ds ni \<in> set (fst (call dh self inputs))"
      and "combine_docs_run self ds ni = Inr answer"
  shows "{c. Critique c \<in> set (fst (call dh self inputs))} =
           (case fst (parse_code answer) of None \<Rightarrow> {} | Some c \<Rightarrow> {c})"
  using assms
  by (cases rule: call_cases [of dh self inputs]) (auto split: option.splits)

lemma call_verdict_no_code:
  assumes "Synthesize ds ni \<in> set (fst (call dh self inputs))"
      and "combine_docs_run self ds ni = Inr answer"
      and "fst (parse_code answer) = None"
      and "snd (call dh self inputs) = Inr out"
      and "return_revision_request self"
  shows "map_of out ''revision_request'' = Some (PyBool True)"
  using assms
  by (cases rule: call_cases [of dh self inputs]) (auto split: option.splits)

lemma call_verdict_code:
  assumes "Synthesize ds ni \<in> set (fst (call dh self inputs))"
      and "combine_docs_run self ds ni = Inr answer"
      and "fst (parse_code answer) = Some code"
      and "snd (call dh self inputs) = Inr out"
      and "return_revision_request self"
  shows "\<exists>verdict. constitutional_run self code = Inr verdict \<and>
           map_of out ''revision_request'' = Some (PyStr verdict)"
  using assms
  by (cases rule: call_cases [of dh self inputs]) (auto split: option.splits)

lemma call_generated_question:
  assumes "snd (call dh self inputs) = Inr out" and "return_generated_question self"
  shows "\<exists>request nq. map_of inputs ''question'' = Some request \<and>
           question_generator_run self request = Inr nq \<and>
           Retrieve nq \<in> set (fst (call dh self inputs)) \<and>
           map_of out ''generated_question'' =
             Some (PyStr (py_replace ''python'' [] (py_replace ''streamlit'' [] nq)))"
  using assms
  by (cases rule: call_cases [of dh self inputs]) auto

lemma call_first_event:
  assumes "map_of inputs ''question'' = Some request"
  shows "\<exists>rest. fst (call dh self inputs) = Condense request # rest"
  using assms
  by (cases rule: call_cases [of dh self inputs]) auto

lemma call_missing_question:
  assumes "map_of inputs ''question'' = None"
  shows "call dh self inputs = ([], Inl (KeyError ''question''))"
  using assms by (simp add: call_def dict_getitem_def then_do_lift_Inl)

text \<open>
  C1, as the code has it. The dictionary handed to the synthesizer is the caller's
  input dictionary with only \<open>chat_history\<close> replaced by the string the formatter in
  use returns for it, so the question text used for generation is the caller's
  original question, not the condensed query. Every query sent to the retriever is the
  condenser's response as it came, unsanitized, whatever the output flags. The
  sanitized form of the condensed query appears only in the \<open>generated_question\<close>
  field of the result.
\<close>

theorem synthesizer_receives_original_question:
  "(Synthesize ds ni \<in> set (fst (call dh self inputs)) \<longrightarrow>
      (\<exists>request nq docs0 fmt h hs rest.
         map_of inputs ''question'' = Some request \<and>
         question_generator_run self request = Inr nq \<and>
         get_relevant_documents self nq = Inr docs0 \<and>
         reduce_tokens_below_limit self docs0 = Inr ds \<and>
         or_default (get_chat_history self) dh = Inr fmt \<and>
         map_of inputs ''chat_history'' = Some h \<and>
         fmt h = Inr hs \<and>
         ni = AList.update ''chat_history'' (PyStr hs) inputs \<and>
         map_of ni ''question'' = Some request \<and>
         fst (call dh self inputs) =
           [Condense request, Retrieve nq, Synthesize ds ni] @ rest)) \<and>
   (Retrieve query \<in> set (fst (call dh self inputs)) \<longrightarrow>
      (\<exists>request. map_of inputs ''question'' = Some request \<and>
         question_generator_run self request = Inr query)) \<and>
   (snd (call dh self inputs) = Inr out \<and> return_generated_question self \<longrightarrow>
      (\<exists>request nq. map_of inputs ''question'' = Some request \<and>
         question_generator_run self request = Inr nq \<and>
         Retrieve nq \<in> set (fst (call dh self inputs)) \<and>
         map_of out ''generated_question'' =
           Some (PyStr (py_replace ''python'' [] (py_replace ''streamlit'' [] nq)))))"
proof (intro conjI impI)
  assume "Synthesize ds ni \<in> set (fst (call dh self inputs))"
  then obtain request nq docs0 fmt h hs rest where st:
    "map_of inputs ''question'' = Some request"
    "question_generator_run self request = Inr nq"
    "get_relevant_documents self nq = Inr docs0"
    "reduce_tokens_below_limit self docs0 = Inr ds"
    "or_default (get_chat_history self) dh = Inr fmt"
    "map_of inputs ''chat_history'' = Some h"
    "fmt h = Inr hs"
    "ni = AList.update ''chat_history'' (PyStr hs) inputs"
    "fst (call dh self inputs) = [Condense request, Retrieve nq, Synthesize ds ni] @ rest"
    using call_synthesize_stages [of ds ni dh self inputs] by blast
  from st(1,8) have "map_of ni ''question'' = Some request"
    by (simp add: update_conv')
  with st show "\<exists>request nq docs0 fmt h hs rest.
         map_of inputs ''question'' = Some request \<and>
         question_generator_run self request = Inr nq \<and>
         get_relevant_documents self nq = Inr docs0 \<and>
         reduce_tokens_below_limit self docs0 = Inr ds \<and>
         or_default (get_chat_history self) dh = Inr fmt \<and>
         map_of inputs ''chat_history'' = Some h \<and>
         fmt h = Inr hs \<and>
         ni = AList.update ''chat_history'' (PyStr hs) inputs \<and>
         map_of ni ''question'' = Some request \<and>
         fst (call dh self inputs) =
           [Condense request, Retrieve nq, Synthesize ds ni] @ rest"
    by blast
next
  assume "Retrieve query \<in> set (fst (call dh self inputs))"
  then show "\<exists>request. map_of inputs ''question'' = Some request \<and>
         question_generator_run self request = Inr query"
    by (rule call_retrieve_query)
next
  assume "snd (call dh self inputs) = Inr out \<and> return_generated_question self"
  then show "\<exists>request nq. map_of inputs ''question'' = Some request \<and>
         question_generator_run self request = Inr nq \<and>
         Retrieve nq \<in> set (fst (call dh self inputs)) \<and>
         map_of out ''generated_question'' =
           Some (PyStr (py_replace ''python'' [] (py_replace ''streamlit'' [] nq)))"
    using call_generated_question by blast
qed

theorem synthesizer_receives_original_question_witness:
  "Synthesize [example_doc ''aaaa'', example_doc ''bbbb'']
     [(''question'', PyStr ''hi''), (''chat_history'', PyStr [])]
     \<in> set (fst (call example_history (example_chain ''no code'') (example_inputs ''hi''))) \<and>
   Retrieve ''standalone streamlit question''
     \<in> set (fst (call example_history (example_chain ''no code'') (example_inputs ''hi''))) \<and>
   snd (call example_history (example_chain ''no code'') (example_inputs ''hi'')) =
     Inr [(''code'', PyNone), (''explanation'', PyNone),
          (''source_documents'', PyDocs [example_doc ''aaaa'', example_doc ''bbbb'']),
          (''generated_question'', PyStr ''standalone  question''),
          (''revision_request'', PyBool True)] \<and>
   return_generated_question (example_chain ''no code'') \<and>
   (\<exists>request nq docs0 fmt h hs rest.
      map_of (example_inputs ''hi'') ''question'' = Some request \<and>
      question_generator_run (example_chain ''no code'') request = Inr nq \<and>
      get_relevant_documents (example_chain ''no code'') nq = Inr docs0 \<and>
      reduce_tokens_below_limit (example_chain ''no code'') docs0
        = Inr [example_doc ''aaaa'', example_doc ''bbbb''] \<and>
      or_default (get_chat_history (example_chain ''no code'')) example_history = Inr fmt \<and>
      map_of (example_inputs ''hi'') ''chat_history'' = Some h \<and>
      fmt h = Inr hs \<and>
      [(''question'', PyStr ''hi''), (''chat_history'', PyStr [])]
        = AList.update ''chat_history'' (PyStr hs) (example_inputs ''hi'') \<and>
      map_of [(''question'', PyStr ''hi''), (''chat_history'', PyStr [])] ''question''
        = Some request \<and>
      fst (call example_history (example_chain ''no code'') (example_inputs ''hi'')) =
        [Condense request, Retrieve nq,
         Synthesize [example_doc ''aaaa'', example_doc ''bbbb'']
           [(''question'', PyStr ''hi''), (''chat_history'', PyStr [])]] @ rest) \<and>
   (\<exists>request. map_of (example_inputs ''hi'') ''question'' = Some request \<and>
      question_generator_run (example_chain ''no code'') request
        = Inr ''standalone streamlit question'') \<and>
   (\<exists>request nq. map_of (example_inputs ''hi'') ''question'' = Some request \<and>
      question_generator_run (example_chain ''no code'') request = Inr nq \<and>
      Retrieve nq
        \<in> set (fst (call example_history (example_chain ''no code'') (example_inputs ''hi''))) \<and>
      map_of [(''code'', PyNone), (''explanation'', PyNone),
              (''source_documents'', PyDocs [example_doc ''aaaa'', example_doc ''bbbb'']),
              (''generated_question'', PyStr ''standalone  question''),
              (''revision_request'', PyBool True)] ''generated_question'' =
        Some (PyStr (py_replace ''python'' [] (py_replace ''streamlit'' [] nq))))"
proof -
  have h1: "Synthesize [example_doc ''aaaa'', example_doc ''bbbb'']
     [(''question'', PyStr ''hi''), (''chat_history'', PyStr [])]
     \<in> set (fst (call example_history (example_chain ''no code'') (example_inputs ''hi'')))"
    by code_simp
  have h2: "Retrieve ''standalone streamlit question''
     \<in> set (fst (call example_history (example_chain ''no code'') (example_inputs ''hi'')))"
    by code_simp
  have h3: "snd (call example_history (example_chain ''no code'') (example_inputs ''hi'')) =
     Inr [(''code'', PyNone), (''explanation'', PyNone),
          (''source_documents'', PyDocs [example_doc ''aaaa'', example_doc ''bbbb'']),
          (''generated_question'', PyStr ''standalone  question''),
          (''revision_request'', PyBool True)]"
    by code_simp
  have h4: "return_generated_question (example_chain ''no code'')"
    by (simp add: example_chain_def)
  from synthesizer_receives_original_question
         [of "[example_doc ''aaaa'', example_doc ''bbbb'']"
             "[(''question'', PyStr ''hi''), (''chat_history'', PyStr [])]"
             example_history "example_chain ''no code''" "example_inputs ''hi''"
             "''standalone streamlit question''"
             "[(''code'', PyNone), (''explanation'', PyNone),
               (''source_documents'', PyDocs [example_doc ''aaaa'', example_doc ''bbbb'']),
               (''generated_question'', PyStr ''standalone  question''),
               (''revision_request'', PyBool True)]"]
       h1 h2 h3 h4
  show ?thesis by blast
qed

text \<open>
  C1 as stated fails: the condenser answers \<open>standalone streamlit question\<close> to the
  question \<open>hi\<close>, and the synthesizer is called with the question \<open>hi\<close>.
\<close>

theorem synthesizer_receives_original_question_counterexample:
  "question_generator_run (example_chain ''no code'') (PyStr ''hi'')
     = Inr ''standalone streamlit question'' \<and>
   fst (call example_history (example_chain ''no code'') (example_inputs ''hi'')) =
     [Condense (PyStr ''hi''), Retrieve ''standalone streamlit question'',
      Synthesize [example_doc ''aaaa'', example_doc ''bbbb'']
        [(''question'', PyStr ''hi''), (''chat_history'', PyStr [])]]"
  by code_simp

text \<open>
  C2. When the synthesizer's answer parses to no code, in the blocking and in the
  suspendable entry point alike, no call is made on the critic, and the verdict put in
  the result under \<open>revision_request\<close> is \<^verbatim>\<open>True\<close>, the unsafe value.
\<close>

theorem no_code_fails_closed:
  "(Synthesize ds ni \<in> set (fst (call dh self inputs)) \<and>
    combine_docs_run self ds ni = Inr answer \<and> fst (parse_code answer) = None \<longrightarrow>
      (\<forall>c. Critique c \<notin> set (fst (call dh self inputs))) \<and>
      (snd (call dh self inputs) = Inr out \<and> return_revision_request self \<longrightarrow>
         map_of out ''revision_request'' = Some (PyBool True))) \<and>
   (Synthesize ds' ni' \<in> set (fst (acall dh self inputs)) \<and>
    combine_docs_arun self ds' ni' = Inr answer' \<and> fst (parse_code answer') = None \<longrightarrow>
      (\<forall>c. Critique c \<notin> set (fst (acall dh self inputs))) \<and>
      (snd (acall dh self inputs) = Inr out' \<and> return_revision_request self \<longrightarrow>
         map_of out' ''revision_request'' = Some (PyBool True)))"
proof (intro conjI impI allI)
  fix c
  assume a: "Synthesize ds ni \<in> set (fst (call dh self inputs)) \<and>
    combine_docs_run self ds ni = Inr answer \<and> fst (parse_code answer) = None"
  then have "{c. Critique c \<in> set (fst (call dh self inputs))} = {}"
    using call_critic_events [of ds ni dh self inputs answer] by simp
  then show "Critique c \<notin> set (fst (call dh self inputs))" by blast
next
  assume "Synthesize ds ni \<in> set (fst (call dh self inputs)) \<and>
    combine_docs_run self ds ni = Inr answer \<and> fst (parse_code answer) = None"
    and "snd (call dh self inputs) = Inr out \<and> return_revision_request self"
  then show "map_of out ''revision_request'' = Some (PyBool True)"
    using call_verdict_no_code by blast
next
  let ?self = "self\<lparr>question_generator_run := question_generator_arun self,
                    get_relevant_documents := aget_relevant_documents self,
                    combine_docs_run := combine_docs_arun self\<rparr>"
  fix c
  assume "Synthesize ds' ni' \<in> set (fst (acall dh self inputs)) \<and>
    combine_docs_arun self ds' ni' = Inr answer' \<and> fst (parse_code answer') = None"
  then have "{c. Critique c \<in> set (fst (call dh ?self inputs))} = {}"
    using call_critic_events [of ds' ni' dh ?self inputs answer']
    by (simp add: acall_as_call)
  then show "Critique c \<notin> set (fst (acall dh self inputs))"
    by (simp add: acall_as_call)
next
  let ?self = "self\<lparr>question_generator_run := question_generator_arun self,
                    get_relevant_documents := aget_relevant_documents self,
                    combine_docs_run := combine_docs_arun self\<rparr>"
  assume "Synthesize ds' ni' \<in> set (fst (acall dh self inputs)) \<and>
    combine_docs_arun self ds' ni' = Inr answer' \<and> fst (parse_code answer') = None"
    and "snd (acall dh self inputs) = Inr out' \<and> return_revision_request self"
  then show "map_of out' ''revision_request'' = Some (PyBool True)"
    using call_verdict_no_code [of ds' ni' dh ?self inputs answer' out']
    by (simp add: acall_as_call)
qed

theorem no_code_fails_closed_witness:
  "Synthesize [example_doc ''aaaa'', example_doc ''bbbb'']
     [(''question'', PyStr ''hi''), (''chat_history'', PyStr [])]
     \<in> set (fst (call example_history (example_chain ''no code'') (example_inputs ''hi''))) \<and>
   combine_docs_run (example_chain ''no code'') [example_doc ''aaaa'', example_doc ''bbbb'']
     [(''question'', PyStr ''hi''), (''chat_history'', PyStr [])] = Inr ''no code'' \<and>
   fst (parse_code ''no code'') = None \<and>
   snd (call example_history (example_chain ''no code'') (example_inputs ''hi'')) =
     Inr [(''code'', PyNone), (''explanation'', PyNone),
          (''source_documents'', PyDocs [example_doc ''aaaa'', example_doc ''bbbb'']),
          (''generated_question'', PyStr ''standalone  question''),
          (''revision_request'', PyBool True)] \<and>
   return_revision_request (example_chain ''no code'') \<and>
   Synthesize [example_doc ''aaaa'', example_doc ''bbbb'']
     [(''question'', PyStr ''hi''), (''chat_history'', PyStr [])]
     \<in> set (fst (acall example_history (example_chain ''no code'') (example_inputs ''hi''))) \<and>
   combine_docs_arun (example_chain ''no code'') [example_doc ''aaaa'', example_doc ''bbbb'']
     [(''question'', PyStr ''hi''), (''chat_history'', PyStr [])] = Inr ''no code'' \<and>
   snd (acall example_history (example_chain ''no code'') (example_inputs ''hi'')) =
     Inr [(''code'', PyNone), (''explanation'', PyNone),
          (''source_documents'', PyDocs [example_doc ''aaaa'', example_doc ''bbbb'']),
          (''generated_question'', PyStr ''standalone  question''),
          (''revision_request'', PyBool True)] \<and>
   (\<forall>c. Critique c
      \<notin> set (fst (call example_history (example_chain ''no code'') (example_inputs ''hi'')))) \<and>
   (\<forall>c. Critique c
      \<notin> set (fst (acall example_history (example_chain ''no code'') (example_inputs ''hi'')))) \<and>
   map_of [(''code'', PyNone), (''explanation'', PyNone),
          (''source_documents'', PyDocs [example_doc ''aaaa'', example_doc ''bbbb'']),
          (''generated_question'', PyStr ''standalone  question''),
          (''revision_request'', PyBool True)] ''revision_request'' = Some (PyBool True)"
proof -
  let ?ds = "[example_doc ''aaaa'', example_doc ''bbbb'']"
  let ?ni = "[(''question'', PyStr ''hi''), (''chat_history'', PyStr [])]"
  let ?out = "[(''code'', PyNone), (''explanation'', PyNone),
          (''source_documents'', PyDocs [example_doc ''aaaa'', example_doc ''bbbb'']),
          (''generated_question'', PyStr ''standalone  question''),
          (''revision_request'', PyBool True)]"
  have h1: "Synthesize ?ds ?ni
     \<in> set (fst (call example_history (example_chain ''no code'') (example_inputs ''hi'')))"
    by code_simp
  have h2: "combine_docs_run (example_chain ''no code'') ?ds ?ni = Inr ''no code''"
    by (simp add: example_chain_def)
  have h3: "fst (parse_code ''no code'') = None"
    by code_simp
  have h4: "snd (call example_history (example_chain ''no code'') (example_inputs ''hi''))
              = Inr ?out"
    by code_simp
  have h5: "return_revision_request (example_chain ''no code'')"
    by (simp add: example_chain_def)
  have h6: "Synthesize ?ds ?ni
     \<in> set (fst (acall example_history (example_chain ''no code'') (example_inputs ''hi'')))"
    by code_simp
  have h7: "combine_docs_arun (example_chain ''no code'') ?ds ?ni = Inr ''no code''"
    by (simp add: example_chain_def)
  have h8: "snd (acall example_history (example_chain ''no code'') (example_inputs ''hi''))
              = Inr ?out"
    by code_simp
  from no_code_fails_closed
         [of ?ds ?ni example_history "example_chain ''no code''" "example_inputs ''hi''"
             "''no code''" ?out ?ds ?ni "''no code''" ?out]
       h1 h2 h3 h4 h5 h6 h7 h8
  show ?thesis by blast
qed

text \<open>
  C7. When the awaited methods of the condenser, the retriever and the synthesizer
  respond as the blocking ones do, the suspendable entry point makes the same calls
  and yields the same result or the same exception as the blocking entry point.
\<close>

theorem acall_agrees_with_call:
  assumes "question_generator_arun self = question_generator_run self"
      and "aget_relevant_documents self = get_relevant_documents self"
      and "combine_docs_arun self = combine_docs_run self"
  shows "acall dh self inputs = call dh self inputs"
  unfolding acall_def call_def aget_docs_def get_docs_def
  by (simp only: assms)

theorem acall_agrees_with_call_witness:
  "question_generator_arun (example_chain ''no code'')
     = question_generator_run (example_chain ''no code'') \<and>
   aget_relevant_documents (example_chain ''no code'')
     = get_relevant_documents (example_chain ''no code'') \<and>
   combine_docs_arun (example_chain ''no code'') = combine_docs_run (example_chain ''no code'') \<and>
   acall example_history (example_chain ''no code'') (example_inputs ''hi'')
     = call example_history (example_chain ''no code'') (example_inputs ''hi'')"
proof -
  have h1: "question_generator_arun (example_chain ''no code'')
     = question_generator_run (example_chain ''no code'')"
    by (simp add: example_chain_def)
  have h2: "aget_relevant_documents (example_chain ''no code'')
     = get_relevant_documents (example_chain ''no code'')"
    by (simp add: example_chain_def)
  have h3: "combine_docs_arun (example_chain ''no code'')
     = combine_docs_run (example_chain ''no code'')"
    by (simp add: example_chain_def)
  from acall_agrees_with_call [OF h1 h2 h3] h1 h2 h3 show ?thesis by blast
qed

text \<open>
  C8, as the code has it. When the input dictionary has no question, the run ends
  with \<^verbatim>\<open>KeyError\<close> before any call on a collaborator. A question that is present
  is not examined: whatever it is, the empty string too, the first call of the run is
  the condenser's, on that question.
\<close>

theorem missing_question_fails_first:
  "(map_of inputs ''question'' = None \<longrightarrow>
      call dh self inputs = ([], Inl (KeyError ''question''))) \<and>
   (map_of inputs' ''question'' = Some request \<longrightarrow>
      (\<exists>rest. fst (call dh self inputs') = Condense request # rest))"
  using call_missing_question call_first_event by blast

theorem missing_question_fails_first_witness:
  "map_of [(''chat_history'', PyTurns [])] ''question'' = None \<and>
   call example_history (example_chain ''no code'') [(''chat_history'', PyTurns [])]
     = ([], Inl (KeyError ''question'')) \<and>
   map_of (example_inputs []) ''question'' = Some (PyStr []) \<and>
   (\<exists>rest. fst (call example_history (example_chain ''no code'') (example_inputs []))
      = Condense (PyStr []) # rest)"
proof -
  have h1: "map_of [(''chat_history'', PyTurns [])] ''question'' = None" by simp
  have h2: "map_of (example_inputs []) ''question'' = Some (PyStr [])"
    by (simp add: example_inputs_def)
  from missing_question_fails_first
         [of "[(''chat_history'', PyTurns [])]" example_history "example_chain ''no code''"
             "example_inputs []" "PyStr []"]
       h1 h2
  show ?thesis by blast
qed

text \<open>
  C8 as stated fails for the empty question: the run calls the condenser, the
  retriever and the synthesizer and returns a result.
\<close>

theorem missing_question_fails_first_counterexample:
  "call example_history (example_chain ''no code'') (example_inputs []) =
     ([Condense (PyStr []), Retrieve ''standalone streamlit question'',
       Synthesize [example_doc ''aaaa'', example_doc ''bbbb'']
         [(''question'', PyStr []), (''chat_history'', PyStr [])]],
      Inr [(''code'', PyNone), (''explanation'', PyNone),
           (''source_documents'', PyDocs [example_doc ''aaaa'', example_doc ''bbbb'']),
           (''generated_question'', PyStr ''standalone  question''),
           (''revision_request'', PyBool True)])"
  by code_simp

text \<open>
  C9, as the code has it. The critic is called whenever the parsed code is not
  \<^verbatim>\<open>None\<close>, whatever the string, the empty one too: the critic is called on that
  code, and the verdict put in the result under \<open>revision_request\<close> is the critic's
  answer.
\<close>

theorem critic_runs_on_any_code:
  "Synthesize ds ni \<in> set (fst (call dh self inputs)) \<and>
   combine_docs_run self ds ni = Inr answer \<and> fst (parse_code answer) = Some code \<longrightarrow>
     Critique code \<in> set (fst (call dh self inputs)) \<and>
     (snd (call dh self inputs) = Inr out \<and> return_revision_request self \<longrightarrow>
        (\<exists>verdict. constitutional_run self code = Inr verdict \<and>
           map_of out ''revision_request'' = Some (PyStr verdict)))"
proof (intro conjI impI)
  assume a: "Synthesize ds ni \<in> set (fst (call dh self inputs)) \<and>
    combine_docs_run self ds ni = Inr answer \<and> fst (parse_code answer) = Some code"
  then have "{c. Critique c \<in> set (fst (call dh self inputs))} = {code}"
    using call_critic_events [of ds ni dh self inputs answer] by simp
  then show "Critique code \<in> set (fst (call dh self inputs))" by blast
next
  assume "Synthesize ds ni \<in> set (fst (call dh self inputs)) \<and>
    combine_docs_run self ds ni = Inr answer \<and> fst (parse_code answer) = Some code"
    and "snd (call dh self inputs) = Inr out \<and> return_revision_request self"
  then show "\<exists>verdict. constitutional_run self code = Inr verdict \<and>
           map_of out ''revision_request'' = Some (PyStr verdict)"
    using call_verdict_code by blast
qed

theorem critic_runs_on_any_code_witness:
  "Synthesize [example_doc ''aaaa'', example_doc ''bbbb'']
     [(''question'', PyStr ''hi''), (''chat_history'', PyStr [])]
     \<in> set (fst (call example_history (example_chain ''```python```'') (example_inputs ''hi''))) \<and>
   combine_docs_run (example_chain ''```python```'') [example_doc ''aaaa'', example_doc ''bbbb'']
     [(''question'', PyStr ''hi''), (''chat_history'', PyStr [])] = Inr ''```python```'' \<and>
   fst (parse_code ''```python```'') = Some [] \<and>
   snd (call example_history (example_chain ''```python```'') (example_inputs ''hi'')) =
     Inr [(''code'', PyStr []), (''explanation'', PyStr []),
          (''source_documents'', PyDocs [example_doc ''aaaa'', example_doc ''bbbb'']),
          (''generated_question'', PyStr ''standalone  question''),
          (''revision_request'', PyStr ''safe'')] \<and>
   return_revision_request (example_chain ''```python```'') \<and>
   Critique []
     \<in> set (fst (call example_history (example_chain ''```python```'') (example_inputs ''hi''))) \<and>
   (\<exists>verdict. constitutional_run (example_chain ''```python```'') [] = Inr verdict \<and>
      map_of [(''code'', PyStr []), (''explanation'', PyStr []),
          (''source_documents'', PyDocs [example_doc ''aaaa'', example_doc ''bbbb'']),
          (''generated_question'', PyStr ''standalone  question''),
          (''revision_request'', PyStr ''safe'')] ''revision_request'' = Some (PyStr verdict))"
proof -
  let ?ds = "[example_doc ''aaaa'', example_doc ''bbbb'']"
  let ?ni = "[(''question'', PyStr ''hi''), (''chat_history'', PyStr [])]"
  let ?out = "[(''code'', PyStr []), (''explanation'', PyStr []),
          (''source_documents'', PyDocs [example_doc ''aaaa'', example_doc ''bbbb'']),
          (''generated_question'', PyStr ''standalone  question''),
          (''revision_request'', PyStr ''safe'')]"
  have h1: "Synthesize ?ds ?ni
     \<in> set (fst (call example_history (example_chain ''```python```'') (example_inputs ''hi'')))"
    by code_simp
  have h2: "combine_docs_run (example_chain ''```python```'') ?ds ?ni = Inr ''```python```''"
    by (simp add: example_chain_def)
  have h3: "fst (parse_code ''```python```'') = Some []"
    by code_simp
  have h4: "snd (call example_history (example_chain ''```python```'') (example_inputs ''hi''))
              = Inr ?out"
    by code_simp
  have h5: "return_revision_request (example_chain ''```python```'')"
    by (simp add: example_chain_def)
  from critic_runs_on_any_code
         [of ?ds ?ni example_history "example_chain ''```python```''" "example_inputs ''hi''"
             "''```python```''" "[]" ?out]
       h1 h2 h3 h4 h5
  show ?thesis by blast
qed

text \<open>
  C9 as stated fails: a python fence with nothing between the markers parses to the
  empty code, the critic is called on it, and the verdict is the critic's answer, not
  \<^verbatim>\<open>True\<close>.
\<close>

theorem critic_runs_on_any_code_counterexample:
  "parse_code ''```python```'' = (Some [], Some []) \<and>
   call example_history (example_chain ''```python```'') (example_inputs ''hi'') =
     ([Condense (PyStr ''hi''), Retrieve ''standalone streamlit question'',
       Synthesize [example_doc ''aaaa'', example_doc ''bbbb'']
         [(''question'', PyStr ''hi''), (''chat_history'', PyStr [])],
       Critique []],
      Inr [(''code'', PyStr []), (''explanation'', PyStr []),
           (''source_documents'', PyDocs [example_doc ''aaaa'', example_doc ''bbbb'']),
           (''generated_question'', PyStr ''standalone  question''),
           (''revision_request'', PyStr ''safe'')])"
  by code_simp

section \<open>Properties of saving\<close>




end
